theory Spec2Isabelle
  imports Complex_Main "HOL-Library.Word"
begin

section \<open>The autoscroll viewer (autoscroll.c)\<close>

text \<open>
  The program is one \<open>main\<close> function: it parses its arguments, reads the file into a
  singly linked list of lines, and then waits for signals in a loop.  The model follows
  that shape.  C \<open>int\<close> counters are modelled as HOL integers (they count lines and
  rows of a file held in memory and stay far from the 32-bit limits); the two fields
  of \<open>struct winsize\<close> are \<open>unsigned short\<close> and are modelled as 16-bit words, which C
  promotes to \<open>int\<close> before any arithmetic (\<open>uint\<close> reads them).  The one place where
  a narrowing conversion is reachable from the command line, the assignment of
  \<open>strtol\<close>'s \<open>long\<close> to \<open>int seconds\<close>, is modelled with its wrap-around.
\<close>

subsection \<open>Data\<close>

text \<open>
  \<open>struct Line\<close>: the text, and the length reported by \<open>getline\<close>.  The \<open>next\<close> pointer
  is the tail of a HOL list: a \<open>struct Line *\<close> is a \<open>Line list\<close>, and \<open>NULL\<close> is \<open>[]\<close>.
\<close>

record Line =
  content :: string
  length_L :: nat

record winsize =
  ws_row :: "16 word"
  ws_col :: "16 word"

text \<open>
  Ways the C program stops being defined: a read through a null pointer, and the
  conversion to \<open>int\<close> of a floating-point value that is infinite or not a number.
\<close>

datatype fault = Null_Dereference | Float_To_Int_Undefined

text \<open>\<open>struct tm\<close>, as far as \<open>strftime\<close> with \<open>%T\<close> reads it.\<close>

record tm =
  tm_hour :: nat
  tm_min :: nat
  tm_sec :: nat

text \<open>The variables of \<open>main\<close> that live across iterations of the signal loop, the bytes
  written to standard output, whether \<open>alarm(1)\<close> is armed, and the exit status once
  \<open>exit\<close> has been called.\<close>

record viewer =
  head :: "Line list"
  terminal_dimensions :: winsize
  seconds :: int
  start_line_number :: int
  lines_printed :: int
  physical_lines_printed :: int
  display_and_exit :: bool
  paused :: bool
  time_to_scroll :: int
  stdout :: string
  alarm_armed :: bool
  exit_status :: "int option"

text \<open>The signals the loop tells apart; \<open>SIGQUIT\<close> stands for every signal of the
  \<open>default\<close> case.\<close>

datatype signal = SIGALRM | SIGTSTP | SIGINT | SIGQUIT

subsection \<open>Pagination\<close>

text \<open>
  \<open>ceil((length - 1.0) / ws_col)\<close>.  The quotient of two integers below \<open>2^37\<close> with a
  divisor below \<open>2^16\<close> is never rounded onto an integer by double-precision division
  unless it is one, so \<open>ceil\<close> of the double is the exact ceiling, written here with
  integer division.  With \<open>ws_col = 0\<close> the quotient is infinite or not a number and
  its conversion to \<open>int\<close> has no specified value: \<open>None\<close>.
\<close>

definition ceil_quotient :: "nat \<Rightarrow> 16 word \<Rightarrow> int option" where
  "ceil_quotient len col =
     (if col = 0 then None else Some (- ((- (int len - 1)) div uint col)))"

text \<open>
  Lines 361-367: the rows the next line will need.  The ceiling is computed first and
  overwritten for a line of length 1; an unspecified value that is overwritten does no
  harm (IEC 60559 conversion rules), one that is used is a fault.
\<close>

definition rows_needed :: "winsize \<Rightarrow> Line \<Rightarrow> fault + int" where
  "rows_needed td l =
     (let r = ceil_quotient (length_L l) (ws_col td)
      in if length_L l = 1 then Inr 1
         else (case r of None \<Rightarrow> Inl Float_To_Int_Undefined | Some v \<Rightarrow> Inr v))"

text \<open>
  Lines 353-391: the printing loop.  The arguments are \<open>line_walker\<close> and the triple
  (\<open>lines_printed\<close>, \<open>physical_lines_printed\<close>, standard output); the result is the same
  four values when the loop is left.  Each iteration reads \<open>line_walker->length\<close>, so
  entering the loop with \<open>line_walker = NULL\<close> is a fault.
\<close>

fun print_text ::
  "winsize \<Rightarrow> Line list \<Rightarrow> int \<times> int \<times> string \<Rightarrow> fault + (Line list \<times> int \<times> int \<times> string)"
where
  "print_text td [] (lp, pp, out) =
     (if pp < uint (ws_row td) - 1 then Inl Null_Dereference
      else Inr ([], lp, pp, out))"
| "print_text td (l # nxt) (lp, pp, out) =
     (if pp < uint (ws_row td) - 1 then
        (case rows_needed td l of
           Inl f \<Rightarrow> Inl f
         | Inr r \<Rightarrow>
             if pp + r \<le> uint (ws_row td) - 1 then
               (if nxt = [] then Inr ([], lp + 1, pp + r, out @ content l)
                else print_text td nxt (lp + 1, pp + r, out @ content l))
             else Inr (l # nxt, lp, pp, out))
      else Inr (l # nxt, lp, pp, out))"

text \<open>Lines 393-396: the test that latches \<open>display_and_exit\<close>.  In C, \<open>&&\<close> binds tighter
  than \<open>||\<close>, and \<open>line_walker->next\<close> is read only when \<open>line_walker\<close> is not null.\<close>

definition short_file :: "winsize \<Rightarrow> Line list \<Rightarrow> int \<Rightarrow> int \<Rightarrow> bool" where
  "short_file td line_walker pp sln =
     ((line_walker = [] \<or> (pp = uint (ws_row td) - 1 \<and> tl line_walker = []))
      \<and> sln = 1)"

subsection \<open>The status bar\<close>

definition ESC :: string where
  "ESC = [CHR 0x1B]"

text \<open>The character of a decimal digit below ten.\<close>

definition digit :: "nat \<Rightarrow> char" where
  "digit n = ''0123456789'' ! n"

text \<open>\<open>printf\<close>'s \<open>%d\<close>.\<close>

fun decimal :: "nat \<Rightarrow> string" where
  "decimal n = (if n < 10 then [digit n] else decimal (n div 10) @ [digit (n mod 10)])"

definition printf_d :: "int \<Rightarrow> string" where
  "printf_d i = (if i < 0 then CHR ''-'' # decimal (nat (- i)) else decimal (nat i))"

text \<open>\<open>strftime\<close> with \<open>%T\<close>: hours, minutes and seconds, two digits each.\<close>

definition two_digits :: "nat \<Rightarrow> string" where
  "two_digits n = [digit (n div 10 mod 10), digit (n mod 10)]"

definition strftime_T :: "tm \<Rightarrow> string" where
  "strftime_T t = two_digits (tm_hour t) @ '':'' @ two_digits (tm_min t) @ '':'' @ two_digits (tm_sec t)"

text \<open>Line 311: wipe screen, history, and move to home.\<close>

definition wipe :: string where
  "wipe = ESC @ ''[2J'' @ ESC @ ''[3J'' @ ESC @ ''[H''"

text \<open>Lines 406-442: go to the bottom row, print time and line range, park the cursor.\<close>

definition status_bar :: "winsize \<Rightarrow> tm \<Rightarrow> int \<Rightarrow> int \<Rightarrow> string" where
  "status_bar td now sln lp =
     ESC @ ''['' @ printf_d (uint (ws_row td)) @ '';1f''
     @ strftime_T now @ '' Lines: '' @ printf_d sln @ ''-'' @ printf_d (sln + lp - 1)
     @ ESC @ ''['' @ printf_d (uint (ws_col td) - 2) @ ''G''"

subsection \<open>The signal loop\<close>

text \<open>
  The \<open>default\<close> case (lines 465-477): wipe the screen, close the file, \<open>exit(EXIT_SUCCESS)\<close>.
  \<open>raise(SIGQUIT)\<close> followed by \<open>break\<close> leads here as well: the signal is blocked and
  pending, so the next \<open>sigwait\<close> returns it, and no alarm is armed in between.
\<close>

definition terminate :: "viewer \<Rightarrow> viewer" where
  "terminate v = v\<lparr>stdout := stdout v @ wipe, exit_status := Some 0\<rparr>"

text \<open>Lines 351-455: print the text and the status bar, reset the counters, re-arm the alarm.\<close>

definition render :: "tm \<Rightarrow> viewer \<Rightarrow> fault + viewer" where
  "render now v =
     (case print_text (terminal_dimensions v) (head v)
             (lines_printed v, physical_lines_printed v, stdout v) of
        Inl f \<Rightarrow> Inl f
      | Inr (line_walker, lp, pp, out) \<Rightarrow>
          Inr (v\<lparr>display_and_exit :=
                    (if short_file (terminal_dimensions v) line_walker pp (start_line_number v)
                     then True else display_and_exit v),
                  stdout := out @ status_bar (terminal_dimensions v) now (start_line_number v) lp,
                  lines_printed := 0,
                  physical_lines_printed := 0,
                  alarm_armed := True\<rparr>))"

text \<open>Lines 309-349: the \<open>SIGALRM\<close> case up to the rendering.  The outer \<open>Inr\<close> carries
  \<open>True\<close> when the case goes on to render and \<open>False\<close> when it has raised \<open>SIGQUIT\<close>
  and left the \<open>switch\<close>.\<close>

definition scroll :: "viewer \<Rightarrow> fault + (bool \<times> viewer)" where
  "scroll v =
     (if \<not> paused v then
        (let v1 = v\<lparr>time_to_scroll := time_to_scroll v - 1\<rparr>
         in if (time_to_scroll v1 = 0 \<and> start_line_number v1 > 1) \<or> time_to_scroll v1 = -1
            then
              (if display_and_exit v1 then Inr (False, v1)
               else (case head v1 of
                       [] \<Rightarrow> Inl Null_Dereference
                     | l # next_line \<Rightarrow>
                         (if next_line = [] then Inr (False, v1\<lparr>head := []\<rparr>)
                          else Inr (True, v1\<lparr>head := next_line,
                                              start_line_number := start_line_number v1 + 1,
                                              time_to_scroll := seconds v1\<rparr>))))
            else Inr (True, v1))
      else Inr (True, v))"

text \<open>The \<open>SIGALRM\<close> case as a whole.  The tick is the alarm going off, so no alarm is
  armed until the rendering arms the next one.\<close>

definition sigalrm :: "tm \<Rightarrow> viewer \<Rightarrow> fault + viewer" where
  "sigalrm now v =
     (case scroll (v\<lparr>stdout := stdout v @ wipe, alarm_armed := False\<rparr>) of
        Inl f \<Rightarrow> Inl f
      | Inr (goes_on, v1) \<Rightarrow> if goes_on then render now v1 else Inr (terminate v1))"

text \<open>One iteration of the \<open>while (true)\<close> loop: the signal that \<open>sigwait\<close> returned, and
  the time of day the clock would show.  A process that has exited handles nothing.\<close>

definition step :: "signal \<times> tm \<Rightarrow> viewer \<Rightarrow> fault + viewer" where
  "step d v =
     (if exit_status v \<noteq> None then Inr v
      else (case fst d of
              SIGALRM \<Rightarrow> sigalrm (snd d) v
            | SIGTSTP \<Rightarrow> Inr (v\<lparr>paused := True\<rparr>)
            | SIGINT \<Rightarrow> Inr (v\<lparr>paused := False\<rparr>)
            | SIGQUIT \<Rightarrow> Inr (terminate v)))"

text \<open>Lines 297-479: the loop, over the signals that arrive in their order.  A fault
  ends it.\<close>

fun run :: "(signal \<times> tm) list \<Rightarrow> viewer \<Rightarrow> fault + viewer" where
  "run [] v = Inr v"
| "run (d # ds) v = (case step d v of Inl f \<Rightarrow> Inl f | Inr v' \<Rightarrow> run ds v')"

text \<open>Lines 275-289: the state in which the loop is entered.\<close>

definition initial :: "Line list \<Rightarrow> winsize \<Rightarrow> int \<Rightarrow> viewer" where
  "initial ls td secs =
     \<lparr>head = ls, terminal_dimensions = td, seconds = secs, start_line_number = 1,
      lines_printed = 0, physical_lines_printed = 0, display_and_exit = False,
      paused = False, time_to_scroll = secs, stdout = [], alarm_armed = False,
      exit_status = None\<rparr>"

subsection \<open>Reading the file\<close>

text \<open>
  The C library's \<open>getline\<close>, from its manual page: it reads up to and including the
  next newline and returns the number of bytes read; at the end of the file it returns
  \<open>-1\<close> (\<open>None\<close>).  The stream is the text not yet read.
\<close>

fun getline :: "string \<Rightarrow> (string \<times> string) option" where
  "getline [] = None"
| "getline (c # cs) =
     (if c = CHR 0x0A then Some ([c], cs)
      else (case getline cs of
              None \<Rightarrow> Some ([c], [])
            | Some (l, rest) \<Rightarrow> Some (c # l, rest)))"

text \<open>
  Lines 211-232: the node made for a line that \<open>getline\<close> returned.  \<open>strncpy\<close> copies the
  text up to its first zero byte; \<open>length\<close> is what \<open>getline\<close> returned.
\<close>

definition current_line :: "string \<Rightarrow> Line" where
  "current_line l = \<lparr>content = takeWhile (\<lambda>c. c \<noteq> CHR 0x00) l, length_L = length l\<rparr>"

text \<open>Lines 209-253: every line read is appended to the list.\<close>

function read_lines :: "string \<Rightarrow> Line list \<Rightarrow> Line list" where
  "read_lines file_content lines =
     (case getline file_content of
        None \<Rightarrow> lines
      | Some (l, rest) \<Rightarrow> read_lines rest (lines @ [current_line l]))"
  by pat_completeness auto
termination
proof (relation "measure (\<lambda>(s, ls). length s)")
  show "wf (measure (\<lambda>(s, ls). length s))" by simp
next
  fix file_content :: string and lines :: "Line list" and x2 l rest
  assume g: "getline file_content = Some x2" and x: "(l, rest) = x2"
  have shorter: "getline s = Some (a, b) \<Longrightarrow> length b < length s" for s a b
    by (induction s arbitrary: a b) (auto split: if_splits option.splits)
  from g x have "length rest < length file_content"
    using shorter [of file_content l rest] by simp
  then show "((rest, lines @ [current_line l]), (file_content, lines))
               \<in> measure (\<lambda>(s, ls). length s)"
    by simp
qed

subsection \<open>The command line\<close>

text \<open>The ways \<open>main\<close> exits with \<open>EXIT_FAILURE\<close> before the signal loop.  Where the
  message comes from \<open>perror\<close> after a call that can fail in several ways, the error
  carries the C library's text for \<open>errno\<close>.  Memory is taken to be available and
  \<open>sigprocmask\<close>, called with a valid set, to succeed.\<close>

datatype error =
    Not_A_Terminal
  | Duplicate_s
  | Missing_Argument char
  | Unknown_Option char
  | No_File_Path
  | Strtol_Errno
  | Non_Integer
  | Seconds_Range
  | Fopen_Failed
  | Getline_Errno string
  | Ioctl_Errno string





text \<open>
  The C library's \<open>getopt\<close> with the option string \<open>":s:"\<close>, from its manual page.  The
  source defines \<open>_POSIX_C_SOURCE\<close> and includes \<open>unistd.h\<close> alone, which gives it the
  \<open>getopt\<close> of POSIX: the options end at the first argument that is not one (it does
  not start with \<open>-\<close>, or is \<open>-\<close> alone), and nothing is moved; \<open>--\<close> ends them too and is
  skipped.  The argument of \<open>getopt\<close> here is \<open>argv\<close> from \<open>optind\<close> on, and so is the
  second component of the result.  The results stand for the values \<open>main\<close> switches
  on: \<open>-1\<close>, \<open>'s'\<close> with \<open>optarg\<close>, \<open>':'\<close> with \<open>optopt\<close>, \<open>'?'\<close> with \<open>optopt\<close>.  An
  option \<open>s\<close> takes the rest of its argument or the next argument as its value, and every
  other option character ends the program, so a call never starts inside an argument.
\<close>

datatype getopt_result =
    End_Of_Options
  | Option_s string
  | Option_Missing char
  | Option_Unknown char

fun getopt :: "string list \<Rightarrow> getopt_result \<times> string list" where
  "getopt [] = (End_Of_Options, [])"
| "getopt (a # rest) =
     (if a = ''--'' then (End_Of_Options, rest)
      else (case a of
              dash # c # optarg \<Rightarrow>
                (if dash = CHR ''-'' then
                   (if c = CHR ''s'' then
                      (if optarg \<noteq> [] then (Option_s optarg, rest)
                       else (case rest of
                               [] \<Rightarrow> (Option_Missing c, [])
                             | b # rest' \<Rightarrow> (Option_s b, rest')))
                    else (Option_Unknown c, rest))
                 else (End_Of_Options, a # rest))
            | _ \<Rightarrow> (End_Of_Options, a # rest)))"

text \<open>
  Lines 112-118 and 140-146: \<open>calloc\<close> of \<open>strlen\<close> bytes and \<open>strncpy\<close> of as many.  The
  copy has no terminating zero byte of its own, so whoever reads it as a C string reads
  the text and then the bytes that lie behind the buffer, up to the first zero byte.
  Those bytes are not the program's to choose: they are a parameter, empty when the
  byte behind the buffer is zero.
\<close>

definition unterminated_copy :: "string \<Rightarrow> string \<Rightarrow> string" where
  "unterminated_copy behind text = text @ behind"

text \<open>Lines 95-130: the option loop.  \<open>s_option\<close> is true exactly when \<open>s_value\<close> is not
  \<open>NULL\<close>, so the model keeps \<open>s_value\<close> alone.  The result is \<open>s_value\<close> and the
  arguments from \<open>argv[optind]\<close> on.\<close>

function option_loop ::
  "string \<Rightarrow> string list \<Rightarrow> string option \<Rightarrow> error + (string option \<times> string list)"
where
  "option_loop behind args s_value =
     (case getopt args of
        (End_Of_Options, operands) \<Rightarrow> Inr (s_value, operands)
      | (Option_s optarg, args') \<Rightarrow>
          (if s_value \<noteq> None then Inl Duplicate_s
           else option_loop behind args' (Some (unterminated_copy behind optarg)))
      | (Option_Missing optopt, _) \<Rightarrow> Inl (Missing_Argument optopt)
      | (Option_Unknown optopt, _) \<Rightarrow> Inl (Unknown_Option optopt))"
  by pat_completeness auto
termination
proof (relation "measure (\<lambda>(behind, args, s_value). length args)")
  show "wf (measure (\<lambda>(behind, args, s_value). length args))" by simp
next
  fix behind :: string and args :: "string list" and s_value :: "string option"
    and a args' optarg
  assume g: "(a, args') = getopt args" "a = Option_s optarg"
  have shorter: "getopt xs = (Option_s v, ys) \<Longrightarrow> length ys < length xs" for xs v ys
    by (cases xs) (auto split: if_splits list.splits)
  from g have "getopt args = (Option_s optarg, args')" by simp
  from shorter [OF this]
  show "((behind, args', Some (unterminated_copy behind optarg)), (behind, args, s_value))
          \<in> measure (\<lambda>(behind, args, s_value). length args)"
    by simp
qed

text \<open>
  The C library's \<open>strtol\<close> with base 0, from its manual page: white space, an optional
  sign, \<open>0x\<close> for base 16 or a leading \<open>0\<close> for base 8, then the digits of that base.
  The result is the value, the text \<open>end_ptr\<close> points to, and whether \<open>errno\<close> was set
  (\<open>ERANGE\<close>, with the value clamped to the range of a 64-bit \<open>long\<close>).
\<close>

definition isspace :: "char \<Rightarrow> bool" where
  "isspace c = (c = CHR '' '' \<or> (9 \<le> (of_char c :: nat) \<and> (of_char c :: nat) \<le> 13))"

definition digit_value :: "char \<Rightarrow> nat" where
  "digit_value c =
     (let n = (of_char c :: nat)
      in if 48 \<le> n \<and> n \<le> 57 then n - 48
         else if 97 \<le> n \<and> n \<le> 122 then n - 87
         else if 65 \<le> n \<and> n \<le> 90 then n - 55
         else 36)"

definition LONG_MAX :: int where
  "LONG_MAX = 9223372036854775807"

definition LONG_MIN :: int where
  "LONG_MIN = - 9223372036854775808"

definition strtol :: "string \<Rightarrow> int \<times> string \<times> bool" where
  "strtol nptr =
     (let s0 = dropWhile isspace nptr;
          negative = (s0 \<noteq> [] \<and> hd s0 = CHR ''-'');
          s = (if s0 \<noteq> [] \<and> (hd s0 = CHR ''-'' \<or> hd s0 = CHR ''+'') then tl s0 else s0);
          hex = (2 \<le> length s \<and> hd s = CHR ''0'' \<and> (s ! 1 = CHR ''x'' \<or> s ! 1 = CHR ''X''));
          base = (if hex then 16 else if s \<noteq> [] \<and> hd s = CHR ''0'' then 8 else 10);
          save = (if hex then drop 2 s else s);
          digits = takeWhile (\<lambda>c. digit_value c < base) save;
          end_ptr = dropWhile (\<lambda>c. digit_value c < base) save;
          n = foldl (\<lambda>acc c. acc * int base + int (digit_value c)) 0 digits;
          v = (if negative then - n else n)
      in if digits = [] then (if hex then (0, tl s, False) else (0, nptr, False))
         else if LONG_MAX < v then (LONG_MAX, end_ptr, True)
         else if v < LONG_MIN then (LONG_MIN, end_ptr, True)
         else (v, end_ptr, False))"

text \<open>Lines 149-179: the seconds.  The \<open>long\<close> is narrowed to \<open>int\<close> by the assignment,
  which keeps its low 32 bits.\<close>

definition extract_seconds :: "string option \<Rightarrow> error + int" where
  "extract_seconds s_value =
     (case s_value of
        None \<Rightarrow> Inr 1
      | Some text \<Rightarrow>
          (case strtol text of
             (v, end_ptr, errno) \<Rightarrow>
               (let secs = sint (word_of_int v :: 32 word)
                in if errno then Inl Strtol_Errno
                   else if end_ptr \<noteq> [] then Inl Non_Integer
                   else if secs < 1 \<or> secs > 59 then Inl Seconds_Range
                   else Inr secs)))"

text \<open>Lines 90-179: options, then the path, then the seconds.  \<open>args\<close> is \<open>argv\<close> without
  \<open>argv[0]\<close>; the first two arguments are what lies behind the buffers of \<open>s_value\<close> and
  of \<open>file_path\<close>; the result is \<open>file_path\<close>, as a C string, and \<open>seconds\<close>.\<close>

definition process_command_line ::
  "string \<Rightarrow> string \<Rightarrow> string list \<Rightarrow> error + (string \<times> int)"
where
  "process_command_line behind_s behind_p args =
     (case option_loop behind_s args None of
        Inl e \<Rightarrow> Inl e
      | Inr (s_value, operands) \<Rightarrow>
          (case operands of
             [] \<Rightarrow> Inl No_File_Path
           | a # _ \<Rightarrow>
               (let file_path = unterminated_copy behind_p a
                in case extract_seconds s_value of
                     Inl e \<Rightarrow> Inl e
                   | Inr secs \<Rightarrow> Inr (file_path, secs))))"



subsection \<open>Notions used by the properties\<close>

text \<open>The inputs of the examples: a file of three one-letter lines as the reading loop
  stores it, and the time of day some seconds after nine.\<close>

definition three_lines :: "Line list" where
  "three_lines = [current_line ''a\<newline>'', current_line ''b\<newline>'', current_line ''c\<newline>'']"

definition at_nine :: "nat \<Rightarrow> tm" where
  "at_nine s = \<lparr>tm_hour = 9, tm_min = 0, tm_sec = s\<rparr>"

text \<open>A run of alarm ticks, each with the time the clock shows.\<close>

definition ticks :: "tm list \<Rightarrow> (signal \<times> tm) list" where
  "ticks ts = map (Pair SIGALRM) ts"

text \<open>The characters of a line that take room on the screen: all but the newline that
  ends it.  The last line of a file may have no newline.\<close>

definition visible_character_count :: "Line \<Rightarrow> nat" where
  "visible_character_count l =
     (if content l \<noteq> [] \<and> last (content l) = CHR 0x0A then length (content l) - 1
      else length (content l))"


text \<open>Two states that differ at most in what has been written and in the alarm.\<close>

definition same_view :: "viewer \<Rightarrow> viewer \<Rightarrow> bool" where
  "same_view v w =
     (head v = head w \<and> terminal_dimensions v = terminal_dimensions w
      \<and> seconds v = seconds w \<and> start_line_number v = start_line_number w
      \<and> lines_printed v = lines_printed w
      \<and> physical_lines_printed v = physical_lines_printed w
      \<and> display_and_exit v = display_and_exit w \<and> paused v = paused w
      \<and> time_to_scroll v = time_to_scroll w \<and> exit_status v = exit_status w)"

text \<open>A state in which rendering would not change \<open>display_and_exit\<close>: every state
  after a rendering is one.\<close>

definition latched :: "viewer \<Rightarrow> bool" where
  "latched v =
     (case print_text (terminal_dimensions v) (head v) (0, 0, []) of
        Inl f \<Rightarrow> True
      | Inr (line_walker, lp, pp, out) \<Rightarrow>
          \<not> short_file (terminal_dimensions v) line_walker pp (start_line_number v)
          \<or> display_and_exit v)"

section \<open>Properties\<close>

subsection \<open>Pagination\<close>

text \<open>What the printing loop has done when it is left: it has consumed a prefix of the
  list, printed exactly the text of those lines, and counted their rows, each of which
  fitted under the budget at the time it was printed.\<close>

lemma print_text_shown:
  "print_text td ls (lp, pp, out) = Inr (rest, lp', pp', out') \<Longrightarrow>
   \<exists>shown rs. ls = shown @ rest \<and> lp' = lp + int (length shown)
     \<and> out' = out @ concat (map content shown)
     \<and> map (rows_needed td) shown = map Inr rs
     \<and> pp' = pp + sum_list rs
     \<and> (\<forall>k < length rs. pp + sum_list (take (Suc k) rs) \<le> uint (ws_row td) - 1)"
proof (induction ls arbitrary: lp pp out)
  case Nil
  then show ?case by (simp split: if_splits)
next
  case (Cons l nxt)
  show ?case
  proof (cases "pp < uint (ws_row td) - 1")
    case False
    with Cons.prems show ?thesis by simp
  next
    case True
    note enter = this
    show ?thesis
    proof (cases "rows_needed td l")
      case (Inl f)
      with Cons.prems enter show ?thesis by simp
    next
      case (Inr r)
      show ?thesis
      proof (cases "pp + r \<le> uint (ws_row td) - 1")
        case False
        with Cons.prems enter Inr show ?thesis by simp
      next
        case True
        note fits = this
        show ?thesis
        proof (cases "nxt = []")
          case True
          with Cons.prems enter Inr fits
          have "rest = []" "lp' = lp + 1" "pp' = pp + r" "out' = out @ content l"
            by simp_all
          with True Inr fits show ?thesis
            by (intro exI [of _ "[l]"] exI [of _ "[r]"]) simp
        next
          case False
          with Cons.prems enter Inr fits
          have "print_text td nxt (lp + 1, pp + r, out @ content l) = Inr (rest, lp', pp', out')"
            by simp
          from Cons.IH [OF this] obtain shown rs where
            s: "nxt = shown @ rest" "lp' = lp + 1 + int (length shown)"
               "out' = (out @ content l) @ concat (map content shown)"
               "map (rows_needed td) shown = map Inr rs"
               "pp' = pp + r + sum_list rs"
               "\<forall>k < length rs. pp + r + sum_list (take (Suc k) rs) \<le> uint (ws_row td) - 1"
            by blast
          have "\<forall>k < length (r # rs). pp + sum_list (take (Suc k) (r # rs)) \<le> uint (ws_row td) - 1"
          proof (intro allI impI)
            fix k assume "k < length (r # rs)"
            show "pp + sum_list (take (Suc k) (r # rs)) \<le> uint (ws_row td) - 1"
            proof (cases k)
              case 0
              with fits show ?thesis by simp
            next
              case (Suc j)
              with \<open>k < length (r # rs)\<close> have "j < length rs" by simp
              with s(6) have "pp + r + sum_list (take (Suc j) rs) \<le> uint (ws_row td) - 1" by blast
              with Suc show ?thesis by (simp add: add.assoc)
            qed
          qed
          with s Inr show ?thesis
            by (intro exI [of _ "l # shown"] exI [of _ "r # rs"]) simp
        qed
      qed
    qed
  qed
qed

text \<open>When the loop is left with a line in hand and rows to spare, that line needed more
  rows than were left.\<close>

lemma print_text_excluded:
  "print_text td ls (lp, pp, out) = Inr (rest, lp', pp', out') \<Longrightarrow> rest \<noteq> [] \<Longrightarrow>
   pp' < uint (ws_row td) - 1 \<Longrightarrow>
   \<exists>r. rows_needed td (hd rest) = Inr r \<and> uint (ws_row td) - 1 < pp' + r"
proof (induction ls arbitrary: lp pp out)
  case Nil
  then show ?case by (simp split: if_splits)
next
  case (Cons l nxt)
  from Cons.prems(1) Cons.prems(2) Cons.prems(3) Cons.IH show ?case
    by (auto split: if_splits sum.splits)
qed

text \<open>
  The frame in the loop's own count.  A frame is what the printing loop does from zero
  counters.  The lines it holds are a prefix \<open>shown\<close> of the list, the text written is
  the whole text stored for exactly those lines, every one of them fitted, by the rows
  the code counts for it, in the rows left when it was printed, and the rows counted
  for the frame are within the \<open>ws_row - 1\<close> rows above the status bar (none at all when
  the terminal has no row to give).  A line that is left out although rows remain is
  left out whole: the code counted more rows for it than remained.
\<close>

lemma frame_whole_lines_within_budget:
  assumes "print_text td ls (0, 0, out) = Inr (line_walker, lp, pp, out')"
  shows "\<exists>shown rs. ls = shown @ line_walker \<and> lp = int (length shown)
     \<and> out' = out @ concat (map content shown)
     \<and> map (rows_needed td) shown = map Inr rs
     \<and> pp = sum_list rs
     \<and> (\<forall>k < length rs. sum_list (take (Suc k) rs) \<le> uint (ws_row td) - 1)
     \<and> pp \<le> max 0 (uint (ws_row td) - 1)
     \<and> (line_walker \<noteq> [] \<and> pp < uint (ws_row td) - 1 \<longrightarrow>
          (\<exists>r. rows_needed td (hd line_walker) = Inr r \<and> uint (ws_row td) - 1 < pp + r))"
proof -
  from print_text_shown [OF assms] obtain shown rs where
    s: "ls = shown @ line_walker" "lp = int (length shown)"
       "out' = out @ concat (map content shown)"
       "map (rows_needed td) shown = map Inr rs" "pp = sum_list rs"
       "\<forall>k < length rs. sum_list (take (Suc k) rs) \<le> uint (ws_row td) - 1"
    by auto
  have budget: "pp \<le> max 0 (uint (ws_row td) - 1)"
  proof (cases "rs = []")
    case True
    with s(5) show ?thesis by simp
  next
    case False
    then have "length rs - 1 < length rs" by simp
    with s(6) have "sum_list (take (Suc (length rs - 1)) rs) \<le> uint (ws_row td) - 1"
      by blast
    with False s(5) show ?thesis by simp
  qed
  have "line_walker \<noteq> [] \<and> pp < uint (ws_row td) - 1 \<longrightarrow>
          (\<exists>r. rows_needed td (hd line_walker) = Inr r \<and> uint (ws_row td) - 1 < pp + r)"
    using print_text_excluded [OF assms] by blast
  with s budget show ?thesis by blast
qed


text \<open>What the loop prints does not depend on what is on the screen already.\<close>

lemma print_text_out:
  "print_text td ls (lp, pp, out) =
     map_sum id (\<lambda>(lw, lp', pp', out'). (lw, lp', pp', out @ out')) (print_text td ls (lp, pp, []))"
proof (induction ls arbitrary: lp pp out)
  case Nil
  show ?case by simp
next
  case (Cons l nxt)
  have a: "print_text td nxt (lp', pp', out @ content l) =
        map_sum id (\<lambda>(lw, lp', pp', out'). (lw, lp', pp', (out @ content l) @ out'))
          (print_text td nxt (lp', pp', []))" for lp' pp'
    by (rule Cons.IH)
  have b: "print_text td nxt (lp', pp', content l) =
        map_sum id (\<lambda>(lw, lp', pp', out'). (lw, lp', pp', content l @ out'))
          (print_text td nxt (lp', pp', []))" for lp' pp'
    by (rule Cons.IH)
  show ?case
    by (cases "rows_needed td l")
       (auto simp: a b sum.map_comp o_def split_def simp del: append_assoc
             split: sum.splits intro!: sum.map_cong0)
qed

text \<open>With a list that is not empty and a window that has columns, the loop has no fault.\<close>

lemma print_text_total:
  "ws_col td \<noteq> 0 \<Longrightarrow> ls \<noteq> [] \<Longrightarrow> \<exists>r. print_text td ls (lp, pp, out) = Inr r"
proof (induction ls arbitrary: lp pp out)
  case Nil
  then show ?case by simp
next
  case (Cons l nxt)
  from Cons.prems(1) have "\<exists>r. rows_needed td l = Inr r"
    by (simp add: rows_needed_def ceil_quotient_def Let_def)
  then obtain r where "rows_needed td l = Inr r" ..
  with Cons show ?case by auto
qed

subsection \<open>One tick\<close>

text \<open>What the scrolling part of a tick leaves alone.\<close>

lemma scroll_frame:
  "scroll u = Inr (g, u1) \<Longrightarrow>
     stdout u1 = stdout u \<and> lines_printed u1 = lines_printed u
     \<and> physical_lines_printed u1 = physical_lines_printed u
     \<and> terminal_dimensions u1 = terminal_dimensions u \<and> exit_status u1 = exit_status u
     \<and> seconds u1 = seconds u \<and> paused u1 = paused u \<and> alarm_armed u1 = alarm_armed u
     \<and> display_and_exit u1 = display_and_exit u"
  by (auto simp: scroll_def Let_def split: if_splits list.splits)





text \<open>
  Claim C10, on a terminal of at least two rows.  There the printing loop is entered at
  every rendering and reads the length of the front line at once: with an empty list
  rendering is a null dereference, so a rendering that succeeds had a line to read, and
  for a file of no lines the very first tick is the fault.
\<close>

theorem render_reads_front_line:
  assumes "1 < uint (ws_row td)"
  shows "(\<forall>v. terminal_dimensions v = td \<and> physical_lines_printed v = 0 \<and> head v = []
            \<longrightarrow> render now v = Inl Null_Dereference)
     \<and> (\<forall>v v'. terminal_dimensions v = td \<and> physical_lines_printed v = 0
            \<and> render now v = Inr v' \<longrightarrow> head v \<noteq> [])
     \<and> run [(SIGALRM, now)] (initial (read_lines [] []) td secs) = Inl Null_Dereference"
proof -
  have a: "render now v = Inl Null_Dereference"
    if "terminal_dimensions v = td" "physical_lines_printed v = 0" "head v = []" for v
    using that assms by (simp add: render_def)
  have b: "head v \<noteq> []"
    if "terminal_dimensions v = td" "physical_lines_printed v = 0" "render now v = Inr v'" for v v'
    using that a [of v] by auto
  have c: "run [(SIGALRM, now)] (initial (read_lines [] []) td secs) = Inl Null_Dereference"
    using assms
    by (simp add: step_def sigalrm_def scroll_def render_def initial_def Let_def)
  from a b c show ?thesis by blast
qed

text \<open>Two rows, eighty columns, the empty file.\<close>

theorem render_reads_front_line_witness:
  "1 < uint (ws_row \<lparr>ws_row = 2, ws_col = 80\<rparr>)
   \<and> run [(SIGALRM, \<lparr>tm_hour = 0, tm_min = 0, tm_sec = 0\<rparr>)]
        (initial (read_lines [] []) \<lparr>ws_row = 2, ws_col = 80\<rparr> 1) = Inl Null_Dereference"
proof -
  have h: "1 < uint (ws_row \<lparr>ws_row = 2, ws_col = 80\<rparr>)" by simp
  from render_reads_front_line [OF h] h show ?thesis by blast
qed

text \<open>
  Claim C10 as it is written speaks of every tick.  The read stands inside the loop
  \<open>while (physical_lines_printed < ws_row - 1)\<close>, which is not entered on a terminal
  of one row: there the first tick on the empty file reads nothing, latches
  \<open>display_and_exit\<close> and writes the status bar \<open>Lines: 1-0\<close>.
\<close>

theorem empty_file_one_row_counterexample:
  "map_sum id (\<lambda>v. (head v, display_and_exit v, exit_status v, stdout v))
     (run [(SIGALRM, \<lparr>tm_hour = 0, tm_min = 0, tm_sec = 0\<rparr>)]
        (initial (read_lines [] []) \<lparr>ws_row = 1, ws_col = 80\<rparr> 1))
   = Inr ([], True, None, wipe @ ESC @ ''[1;1f00:00:00 Lines: 1-0'' @ ESC @ ''[78G'')"
  by (simp add: step_def sigalrm_def scroll_def render_def initial_def Let_def
          short_file_def status_bar_def strftime_T_def two_digits_def printf_d_def digit_def)

text \<open>What rendering leaves alone, whatever the counters.\<close>

lemma render_keeps:
  assumes "render now u = Inr u'"
  shows "head u' = head u \<and> start_line_number u' = start_line_number u
     \<and> time_to_scroll u' = time_to_scroll u \<and> paused u' = paused u
     \<and> seconds u' = seconds u \<and> terminal_dimensions u' = terminal_dimensions u
     \<and> exit_status u' = exit_status u \<and> lines_printed u' = 0
     \<and> physical_lines_printed u' = 0 \<and> alarm_armed u'"
  using assms by (auto simp: render_def split: sum.splits)

text \<open>The scrolling part either keeps the list and the line number, or drops the front
  line, adds one to the number and resets the countdown.\<close>

lemma scroll_position:
  assumes "scroll u = Inr (True, u1)"
  shows "(head u1 = head u \<and> start_line_number u1 = start_line_number u)
     \<or> (head u \<noteq> [] \<and> head u1 = tl (head u)
        \<and> start_line_number u1 = start_line_number u + 1
        \<and> time_to_scroll u1 = seconds u)"
  using assms by (auto simp: scroll_def Let_def split: if_splits list.splits)

subsection \<open>Runs\<close>

lemma step_exited: "exit_status v \<noteq> None \<Longrightarrow> step d v = Inr v"
  by (simp add: step_def)

lemma run_exited: "exit_status v \<noteq> None \<Longrightarrow> run ds v = Inr v"
  by (induction ds) (simp_all add: step_exited)

text \<open>The same for any signal, as long as the process goes on.\<close>

lemma step_position:
  assumes "step d v = Inr v'" and "exit_status v' = None"
  shows "(head v' = head v \<and> start_line_number v' = start_line_number v)
     \<or> (head v \<noteq> [] \<and> head v' = tl (head v)
        \<and> start_line_number v' = start_line_number v + 1
        \<and> time_to_scroll v' = seconds v)"
    and "seconds v' = seconds v" and "terminal_dimensions v' = terminal_dimensions v"
proof -
  have "((head v' = head v \<and> start_line_number v' = start_line_number v)
     \<or> (head v \<noteq> [] \<and> head v' = tl (head v)
        \<and> start_line_number v' = start_line_number v + 1
        \<and> time_to_scroll v' = seconds v))
     \<and> seconds v' = seconds v \<and> terminal_dimensions v' = terminal_dimensions v"
  proof (cases "exit_status v = None")
    case False
    with assms(1) show ?thesis by (simp add: step_exited)
  next
    case True
    show ?thesis
    proof (cases "fst d")
      case SIGALRM
      let ?u = "v\<lparr>stdout := stdout v @ wipe, alarm_armed := False\<rparr>"
      from assms(1) True SIGALRM have a: "sigalrm (snd d) v = Inr v'" by (simp add: step_def)
      then obtain g v1 where sc: "scroll ?u = Inr (g, v1)"
        by (auto simp: sigalrm_def split: sum.splits)
      have g
      proof (rule ccontr)
        assume "\<not> g"
        with a sc have "v' = terminate v1" by (simp add: sigalrm_def)
        with assms(2) show False by (simp add: terminate_def)
      qed
      with a sc have r: "render (snd d) v1 = Inr v'" by (simp add: sigalrm_def)
      from sc \<open>g\<close> have sc': "scroll ?u = Inr (True, v1)" by simp
      from scroll_position [OF sc'] scroll_frame [OF sc'] render_keeps [OF r]
      show ?thesis by auto
    next
      case SIGTSTP
      with assms(1) True show ?thesis by (auto simp: step_def)
    next
      case SIGINT
      with assms(1) True show ?thesis by (auto simp: step_def)
    next
      case SIGQUIT
      with assms(1) True assms(2) show ?thesis by (auto simp: step_def terminate_def)
    qed
  qed
  then show "(head v' = head v \<and> start_line_number v' = start_line_number v)
     \<or> (head v \<noteq> [] \<and> head v' = tl (head v)
        \<and> start_line_number v' = start_line_number v + 1
        \<and> time_to_scroll v' = seconds v)"
    and "seconds v' = seconds v" and "terminal_dimensions v' = terminal_dimensions v"
    by blast+
qed

text \<open>A property kept by every step that does not end the process holds after a run
  that has not ended it.\<close>

lemma run_invariant:
  assumes "run ds v = Inr w" and "exit_status w = None" and "P v"
    and step: "\<And>d a b. P a \<Longrightarrow> step d a = Inr b \<Longrightarrow> exit_status b = None \<Longrightarrow> P b"
  shows "P w"
  using assms(1,3)
proof (induction ds arbitrary: v)
  case Nil
  then show ?case by simp
next
  case (Cons d ds)
  from Cons.prems(1) obtain v1 where s: "step d v = Inr v1" and r: "run ds v1 = Inr w"
    by (auto split: sum.splits)
  have "exit_status v1 = None"
  proof (rule ccontr)
    assume "exit_status v1 \<noteq> None"
    with r have "w = v1" by (simp add: run_exited)
    with assms(2) \<open>exit_status v1 \<noteq> None\<close> show False by simp
  qed
  with Cons.prems(2) s have "P v1" by (rule step)
  with r show ?case by (rule Cons.IH)
qed

text \<open>
  Claim C4.  After any signals whatever, as long as the viewer runs, the list starts at
  the line whose number the status bar shows first (\<open>start_line_number\<close>, counted from 1
  in the file as read), and a further signal either leaves list and number as they are
  or removes exactly the front line and adds exactly one to the number.  So the numbers
  go up by one at each scroll and no line is skipped or shown again.
\<close>

theorem scroll_advances_one_line:
  assumes "run ds (initial ls td secs) = Inr v" and "exit_status v = None"
  shows "1 \<le> start_line_number v \<and> head v = drop (nat (start_line_number v - 1)) ls
     \<and> (\<forall>d v'. step d v = Inr v' \<and> exit_status v' = None \<longrightarrow>
           (head v' = head v \<and> start_line_number v' = start_line_number v)
         \<or> (head v \<noteq> [] \<and> head v' = tl (head v)
             \<and> start_line_number v' = start_line_number v + 1))"
proof -
  let ?P = "\<lambda>a. 1 \<le> start_line_number a \<and> head a = drop (nat (start_line_number a - 1)) ls"
  have init: "?P (initial ls td secs)" by (simp add: initial_def)
  have pres: "?P b" if "?P a" "step d a = Inr b" "exit_status b = None" for d a b
  proof -
    from step_position(1) [OF that(2,3)] show ?thesis
    proof
      assume "head b = head a \<and> start_line_number b = start_line_number a"
      with that(1) show ?thesis by simp
    next
      assume s: "head a \<noteq> [] \<and> head b = tl (head a)
        \<and> start_line_number b = start_line_number a + 1 \<and> time_to_scroll b = seconds a"
      with that(1) have "head b = drop (Suc (nat (start_line_number a - 1))) ls"
        by (simp add: drop_Suc tl_drop)
      moreover from that(1) s have "Suc (nat (start_line_number a - 1)) = nat (start_line_number b - 1)"
        by linarith
      ultimately show ?thesis using s that(1) by simp
    qed
  qed
  have "?P v" using assms init pres by (rule run_invariant [where P = ?P])
  moreover have "\<forall>d v'. step d v = Inr v' \<and> exit_status v' = None \<longrightarrow>
           (head v' = head v \<and> start_line_number v' = start_line_number v)
         \<or> (head v \<noteq> [] \<and> head v' = tl (head v)
             \<and> start_line_number v' = start_line_number v + 1)"
    using step_position(1) by blast
  ultimately show ?thesis by blast
qed

text \<open>Three lines on a terminal of two rows, one second between scrolls: the first tick
  shows line 1, the second scrolls to line 2.\<close>

theorem scroll_advances_one_line_witness:
  "run [(SIGALRM, at_nine 0)] (initial three_lines \<lparr>ws_row = 2, ws_col = 80\<rparr> 1)
     = Inr ((initial three_lines \<lparr>ws_row = 2, ws_col = 80\<rparr> 1)
        \<lparr>time_to_scroll := 0,
         stdout := wipe @ ''a\<newline>'' @ status_bar \<lparr>ws_row = 2, ws_col = 80\<rparr> (at_nine 0) 1 1,
         alarm_armed := True\<rparr>)
   \<and> step (SIGALRM, at_nine 1)
      ((initial three_lines \<lparr>ws_row = 2, ws_col = 80\<rparr> 1)
        \<lparr>time_to_scroll := 0,
         stdout := wipe @ ''a\<newline>'' @ status_bar \<lparr>ws_row = 2, ws_col = 80\<rparr> (at_nine 0) 1 1,
         alarm_armed := True\<rparr>)
     = Inr ((initial three_lines \<lparr>ws_row = 2, ws_col = 80\<rparr> 1)
        \<lparr>head := [current_line ''b\<newline>'', current_line ''c\<newline>''],
         start_line_number := 2,
         stdout := wipe @ ''a\<newline>'' @ status_bar \<lparr>ws_row = 2, ws_col = 80\<rparr> (at_nine 0) 1 1
                   @ wipe @ ''b\<newline>'' @ status_bar \<lparr>ws_row = 2, ws_col = 80\<rparr> (at_nine 1) 2 1,
         alarm_armed := True\<rparr>)
   \<and> three_lines = drop (nat (1 - 1)) three_lines
   \<and> [current_line ''b\<newline>'', current_line ''c\<newline>''] = tl three_lines
   \<and> (2::int) = 1 + 1"
proof -
  let ?i = "initial three_lines \<lparr>ws_row = 2, ws_col = 80\<rparr> 1"
  let ?v = "?i\<lparr>time_to_scroll := 0,
         stdout := wipe @ ''a\<newline>'' @ status_bar \<lparr>ws_row = 2, ws_col = 80\<rparr> (at_nine 0) 1 1,
         alarm_armed := True\<rparr>"
  let ?w = "?i\<lparr>head := [current_line ''b\<newline>'', current_line ''c\<newline>''],
         start_line_number := 2,
         stdout := wipe @ ''a\<newline>'' @ status_bar \<lparr>ws_row = 2, ws_col = 80\<rparr> (at_nine 0) 1 1
                   @ wipe @ ''b\<newline>'' @ status_bar \<lparr>ws_row = 2, ws_col = 80\<rparr> (at_nine 1) 2 1,
         alarm_armed := True\<rparr>"
  have r: "run [(SIGALRM, at_nine 0)] ?i = Inr ?v"
    by (simp add: three_lines_def at_nine_def step_def sigalrm_def scroll_def render_def
          initial_def Let_def rows_needed_def ceil_quotient_def short_file_def current_line_def)
  have e: "exit_status ?v = None"
    by (simp add: initial_def)
  have s: "step (SIGALRM, at_nine 1) ?v = Inr ?w"
    by (simp add: three_lines_def at_nine_def step_def sigalrm_def scroll_def render_def
          initial_def Let_def rows_needed_def ceil_quotient_def short_file_def current_line_def)
  from scroll_advances_one_line [OF r e] r s show ?thesis
    by (simp add: three_lines_def initial_def)
qed




subsection \<open>Pause and resume\<close>

text \<open>A tick of a paused viewer is a rendering and nothing else.\<close>

lemma paused_tick:
  assumes "exit_status v = None" and "paused v"
    and "lines_printed v = 0" and "physical_lines_printed v = 0"
    and "print_text (terminal_dimensions v) (head v) (0, 0, []) = Inr (lw, lp, pp, out)"
  shows "step (SIGALRM, now) v =
         Inr (v\<lparr>display_and_exit :=
                   (if short_file (terminal_dimensions v) lw pp (start_line_number v) then True
                    else display_and_exit v),
                 stdout := stdout v @ wipe @ out
                   @ status_bar (terminal_dimensions v) now (start_line_number v) lp,
                 lines_printed := 0, physical_lines_printed := 0, alarm_armed := True\<rparr>)"
proof -
  have "print_text (terminal_dimensions v) (head v) (0, 0, stdout v @ wipe)
        = Inr (lw, lp, pp, (stdout v @ wipe) @ out)"
    by (subst print_text_out) (simp add: assms(5))
  with assms(1,2,3,4) show ?thesis
    by (simp add: step_def sigalrm_def scroll_def render_def)
qed

lemma print_text_result:
  assumes "ws_col td \<noteq> 0" and "ls \<noteq> []"
  obtains lw lp pp out where "print_text td ls (0, 0, []) = Inr (lw, lp, pp, out)"
proof -
  from print_text_total [OF assms] obtain r where "print_text td ls (0, 0, []) = Inr r" ..
  then show thesis by (cases r) (auto intro: that)
qed

text \<open>
  Claim C6, as the code has it.  A tick that finds the viewer paused does not touch the
  countdown: \<open>time_to_scroll\<close> is decremented only under \<open>if (!paused)\<close>.  The tick
  still wipes the screen, prints the frame and the status bar with the time of day of
  this tick, and arms the alarm for the next second; the list and the line number stay,
  and the viewer stays paused.
\<close>

theorem paused_tick_renders_without_countdown:
  assumes "exit_status v = None" and "paused v" and "head v \<noteq> []"
    and "ws_col (terminal_dimensions v) \<noteq> 0"
    and "lines_printed v = 0" and "physical_lines_printed v = 0"
  shows "\<exists>v' shown rest. step (SIGALRM, now) v = Inr v'
     \<and> time_to_scroll v' = time_to_scroll v
     \<and> head v' = head v \<and> start_line_number v' = start_line_number v
     \<and> paused v' \<and> exit_status v' = None \<and> alarm_armed v'
     \<and> head v = shown @ rest
     \<and> stdout v' = stdout v @ wipe @ concat (map content shown)
          @ status_bar (terminal_dimensions v) now (start_line_number v) (int (length shown))"
proof -
  from assms(4,3) obtain lw lp pp out where
    p: "print_text (terminal_dimensions v) (head v) (0, 0, []) = Inr (lw, lp, pp, out)"
    by (rule print_text_result)
  from print_text_shown [OF p] obtain shown where
    s: "head v = shown @ lw" "lp = int (length shown)" "out = concat (map content shown)"
    by auto
  note st = paused_tick [OF assms(1,2,5,6) p, of now]
  show ?thesis
    apply (rule exI, rule exI [of _ shown], rule exI [of _ lw], rule conjI, rule st)
    using assms(1,2) s by simp
qed

text \<open>States with the same view behave alike: what has been written and the alarm are
  never read.\<close>

lemma same_view_refl: "same_view v v"
  by (simp add: same_view_def)

lemma same_view_trans: "same_view a b \<Longrightarrow> same_view b c \<Longrightarrow> same_view a c"
  by (simp add: same_view_def)

lemma same_view_sym: "same_view a b \<Longrightarrow> same_view b a"
  by (simp add: same_view_def)

lemma scroll_same_view:
  assumes "same_view a b"
  shows "rel_sum (=) (\<lambda>(g, x) (h, y). g = h \<and> same_view x y) (scroll a) (scroll b)"
  using assms
  by (auto simp: scroll_def same_view_def Let_def split: list.splits)

lemma render_same_view:
  assumes "same_view a b"
  shows "rel_sum (=) same_view (render now a) (render now b)"
proof -
  let ?p = "print_text (terminal_dimensions a) (head a) (lines_printed a, physical_lines_printed a, [])"
  from assms have eq: "terminal_dimensions b = terminal_dimensions a" "head b = head a"
    "lines_printed b = lines_printed a" "physical_lines_printed b = physical_lines_printed a"
    "start_line_number b = start_line_number a" "display_and_exit b = display_and_exit a"
    by (simp_all add: same_view_def)
  show ?thesis
  proof (cases ?p)
    case (Inl f)
    then show ?thesis
      by (simp add: render_def eq print_text_out [of _ _ _ _ "stdout a"]
            print_text_out [of _ _ _ _ "stdout b"])
  next
    case (Inr r)
    then obtain lw lp pp out where "?p = Inr (lw, lp, pp, out)" by (cases r) auto
    with assms show ?thesis
      by (simp add: render_def eq print_text_out [of _ _ _ _ "stdout a"]
            print_text_out [of _ _ _ _ "stdout b"] same_view_def)
  qed
qed

lemma step_same_view:
  assumes "same_view a b"
  shows "rel_sum (=) same_view (step d a) (step d b)"
proof (cases "exit_status a = None")
  case False
  with assms show ?thesis by (simp add: step_def same_view_def)
next
  case True
  with assms have eb: "exit_status b = None" by (simp add: same_view_def)
  show ?thesis
  proof (cases "fst d")
    case SIGALRM
    let ?a = "a\<lparr>stdout := stdout a @ wipe, alarm_armed := False\<rparr>"
    let ?b = "b\<lparr>stdout := stdout b @ wipe, alarm_armed := False\<rparr>"
    from assms have "same_view ?a ?b" by (simp add: same_view_def)
    from scroll_same_view [OF this]
    have "rel_sum (=) same_view (sigalrm (snd d) a) (sigalrm (snd d) b)"
      by (cases "scroll ?a"; cases "scroll ?b")
         (auto simp: sigalrm_def render_same_view terminate_def same_view_def)
    with True eb SIGALRM show ?thesis by (simp add: step_def)
  next
    case SIGTSTP
    with assms True eb show ?thesis by (simp add: step_def same_view_def)
  next
    case SIGINT
    with assms True eb show ?thesis by (simp add: step_def same_view_def)
  next
    case SIGQUIT
    with assms True eb show ?thesis by (simp add: step_def same_view_def terminate_def)
  qed
qed

lemma run_same_view:
  "same_view a b \<Longrightarrow> rel_sum (=) same_view (run ds a) (run ds b)"
proof (induction ds arbitrary: a b)
  case Nil
  then show ?case by simp
next
  case (Cons d ds)
  from step_same_view [OF Cons.prems, of d] Cons.IH show ?case
    by (cases "step d a"; cases "step d b") auto
qed

lemma run_append:
  "run (xs @ ys) v = (case run xs v of Inl f \<Rightarrow> Inl f | Inr w \<Rightarrow> run ys w)"
  by (induction xs arbitrary: v) (auto split: sum.splits)


lemma latched_same_view: "same_view a b \<Longrightarrow> latched a = latched b"
  by (auto simp: latched_def same_view_def split: sum.splits)

text \<open>Any number of ticks of a paused viewer leave the view as it is.\<close>

lemma paused_ticks:
  assumes "paused p" and "exit_status p = None" and "head p \<noteq> []"
    and "ws_col (terminal_dimensions p) \<noteq> 0"
    and "lines_printed p = 0" and "physical_lines_printed p = 0" and "latched p"
  shows "\<exists>p'. run (ticks ts) p = Inr p' \<and> same_view p' p"
  using assms
proof (induction ts arbitrary: p)
  case Nil
  show ?case by (simp add: ticks_def same_view_refl)
next
  case (Cons t ts)
  from Cons.prems(4,3) obtain lw lp pp out where
    pt: "print_text (terminal_dimensions p) (head p) (0, 0, []) = Inr (lw, lp, pp, out)"
    by (rule print_text_result)
  define p1 where "p1 = p\<lparr>display_and_exit :=
                   (if short_file (terminal_dimensions p) lw pp (start_line_number p) then True
                    else display_and_exit p),
                 stdout := stdout p @ wipe @ out
                   @ status_bar (terminal_dimensions p) t (start_line_number p) lp,
                 lines_printed := 0, physical_lines_printed := 0, alarm_armed := True\<rparr>"
  have st: "step (SIGALRM, t) p = Inr p1"
    unfolding p1_def by (rule paused_tick [OF Cons.prems(2,1,5,6) pt])
  from Cons.prems(7) pt
  have "\<not> short_file (terminal_dimensions p) lw pp (start_line_number p) \<or> display_and_exit p"
    by (simp add: latched_def)
  with Cons.prems(5,6) have sv: "same_view p1 p"
    by (auto simp: same_view_def p1_def)
  with Cons.prems have "paused p1" "exit_status p1 = None" "head p1 \<noteq> []"
    "ws_col (terminal_dimensions p1) \<noteq> 0" "lines_printed p1 = 0"
    "physical_lines_printed p1 = 0" "latched p1"
    using latched_same_view [OF sv] by (simp_all add: same_view_def)
  from Cons.IH [OF this] obtain p' where r: "run (ticks ts) p1 = Inr p'" and sv': "same_view p' p1"
    by blast
  from sv' sv have "same_view p' p" by (rule same_view_trans)
  moreover from st r have "run (ticks (t # ts)) p = Inr p'" by (simp add: ticks_def)
  ultimately show ?case by blast
qed

text \<open>
  Claim C7.  The viewer is running, has rendered before (\<open>latched\<close>) and is between two
  iterations of the loop.  A pause directly followed by a resume leaves the state as
  it was.  With any number of ticks in between, the state after the resume differs from
  the one before the pause at most in what has been written and in the alarm: list,
  line number, countdown and flags are the same.  And whatever signals follow, the run
  with the pause, the ticks and the resume inserted stays in the same view as the run
  without them: the same lines are shown under the same numbers, the ticks of the
  paused viewer not counting.
\<close>

theorem pause_then_resume_keeps_the_view:
  assumes "exit_status v = None" and "\<not> paused v" and "head v \<noteq> []"
    and "ws_col (terminal_dimensions v) \<noteq> 0"
    and "lines_printed v = 0" and "physical_lines_printed v = 0" and "latched v"
  shows "run [(SIGTSTP, t1), (SIGINT, t2)] v = Inr v
     \<and> (\<exists>w. run ((SIGTSTP, t1) # ticks ts @ [(SIGINT, t2)]) v = Inr w
            \<and> same_view w v
            \<and> (\<forall>ds. rel_sum (=) same_view
                       (run (((SIGTSTP, t1) # ticks ts @ [(SIGINT, t2)]) @ ds) v)
                       (run ds v)))"
proof -
  let ?p = "v\<lparr>paused := True\<rparr>"
  have direct: "run [(SIGTSTP, t1), (SIGINT, t2)] v = Inr v"
    using assms(1,2) by (simp add: step_def)
  have lp: "latched ?p" using assms(7) by (auto simp: latched_def split: sum.splits)
  from paused_ticks [of ?p ts] assms lp
  obtain p' where r: "run (ticks ts) ?p = Inr p'" and sv: "same_view p' ?p"
    by auto
  let ?w = "p'\<lparr>paused := False\<rparr>"
  from sv assms(1) have ex: "exit_status p' = None" by (simp add: same_view_def)
  have w: "run ((SIGTSTP, t1) # ticks ts @ [(SIGINT, t2)]) v = Inr ?w"
    using assms(1) r ex by (simp add: step_def run_append)
  from sv assms(2) have svw: "same_view ?w v" by (simp add: same_view_def)
  have "rel_sum (=) same_view
          (run (((SIGTSTP, t1) # ticks ts @ [(SIGINT, t2)]) @ ds) v) (run ds v)" for ds
    using run_same_view [OF svw, of ds] w by (simp only: run_append [of _ ds] sum.case)
  with direct w svw show ?thesis by blast
qed


text \<open>A viewer paused after its first tick, interval 5: the countdown stays at 4.\<close>

theorem paused_tick_renders_without_countdown_witness:
  "paused ((initial three_lines \<lparr>ws_row = 2, ws_col = 80\<rparr> 5)
        \<lparr>paused := True, time_to_scroll := 4,
         stdout := wipe @ ''a\<newline>'' @ status_bar \<lparr>ws_row = 2, ws_col = 80\<rparr> (at_nine 0) 1 1,
         alarm_armed := True\<rparr>)
   \<and> (\<exists>v' shown rest.
        step (SIGALRM, at_nine 1)
          ((initial three_lines \<lparr>ws_row = 2, ws_col = 80\<rparr> 5)
        \<lparr>paused := True, time_to_scroll := 4,
         stdout := wipe @ ''a\<newline>'' @ status_bar \<lparr>ws_row = 2, ws_col = 80\<rparr> (at_nine 0) 1 1,
         alarm_armed := True\<rparr>) = Inr v'
      \<and> time_to_scroll v' = 4
      \<and> head v' = three_lines
      \<and> start_line_number v' = 1 \<and> paused v' \<and> exit_status v' = None \<and> alarm_armed v'
      \<and> three_lines = shown @ rest
      \<and> stdout v' = wipe @ ''a\<newline>'' @ status_bar \<lparr>ws_row = 2, ws_col = 80\<rparr> (at_nine 0) 1 1
           @ wipe @ concat (map content shown)
           @ status_bar \<lparr>ws_row = 2, ws_col = 80\<rparr> (at_nine 1) 1 (int (length shown)))"
proof -
  let ?v = "((initial three_lines \<lparr>ws_row = 2, ws_col = 80\<rparr> 5)
        \<lparr>paused := True, time_to_scroll := 4,
         stdout := wipe @ ''a\<newline>'' @ status_bar \<lparr>ws_row = 2, ws_col = 80\<rparr> (at_nine 0) 1 1,
         alarm_armed := True\<rparr>)"
  have h: "exit_status ?v = None" "paused ?v" "head ?v \<noteq> []"
    "ws_col (terminal_dimensions ?v) \<noteq> 0"
    "lines_printed ?v = 0" "physical_lines_printed ?v = 0"
    by (simp_all add: three_lines_def at_nine_def initial_def)
  from paused_tick_renders_without_countdown [OF h, of "(at_nine 1)"] h(2)
  show ?thesis
    by (simp add: three_lines_def at_nine_def initial_def)
qed

text \<open>
  Claim C6 as it is written has the countdown decremented again at each tick of a paused
  viewer.  With an interval of 5 the countdown is 4 after the first tick and the pause,
  and still 4 after a further tick.
\<close>

theorem paused_tick_counterexample:
  "map_sum id time_to_scroll
     (run [(SIGALRM, at_nine 0), (SIGTSTP, at_nine 0)]
        (initial three_lines \<lparr>ws_row = 2, ws_col = 80\<rparr> 5)) = Inr 4
   \<and> map_sum id time_to_scroll
     (run [(SIGALRM, at_nine 0), (SIGTSTP, at_nine 0),
           (SIGALRM, at_nine 1)]
        (initial three_lines \<lparr>ws_row = 2, ws_col = 80\<rparr> 5)) = Inr 4"
  by (simp add: three_lines_def at_nine_def step_def sigalrm_def scroll_def render_def
          initial_def Let_def rows_needed_def ceil_quotient_def short_file_def current_line_def)

text \<open>The viewer after its first tick; two ticks pass while it is paused.\<close>

theorem pause_then_resume_keeps_the_view_witness:
  "latched ((initial three_lines \<lparr>ws_row = 2, ws_col = 80\<rparr> 5)
        \<lparr>time_to_scroll := 4,
         stdout := wipe @ ''a\<newline>'' @ status_bar \<lparr>ws_row = 2, ws_col = 80\<rparr> (at_nine 0) 1 1,
         alarm_armed := True\<rparr>)
   \<and> run [(SIGTSTP, at_nine 1), (SIGINT, at_nine 1)]
       ((initial three_lines \<lparr>ws_row = 2, ws_col = 80\<rparr> 5)
        \<lparr>time_to_scroll := 4,
         stdout := wipe @ ''a\<newline>'' @ status_bar \<lparr>ws_row = 2, ws_col = 80\<rparr> (at_nine 0) 1 1,
         alarm_armed := True\<rparr>)
     = Inr ((initial three_lines \<lparr>ws_row = 2, ws_col = 80\<rparr> 5)
        \<lparr>time_to_scroll := 4,
         stdout := wipe @ ''a\<newline>'' @ status_bar \<lparr>ws_row = 2, ws_col = 80\<rparr> (at_nine 0) 1 1,
         alarm_armed := True\<rparr>)
   \<and> (\<exists>w. run ((SIGTSTP, at_nine 1)
               # ticks [at_nine 2, at_nine 3]
               @ [(SIGINT, at_nine 1)])
          ((initial three_lines \<lparr>ws_row = 2, ws_col = 80\<rparr> 5)
        \<lparr>time_to_scroll := 4,
         stdout := wipe @ ''a\<newline>'' @ status_bar \<lparr>ws_row = 2, ws_col = 80\<rparr> (at_nine 0) 1 1,
         alarm_armed := True\<rparr>) = Inr w
        \<and> same_view w ((initial three_lines \<lparr>ws_row = 2, ws_col = 80\<rparr> 5)
        \<lparr>time_to_scroll := 4,
         stdout := wipe @ ''a\<newline>'' @ status_bar \<lparr>ws_row = 2, ws_col = 80\<rparr> (at_nine 0) 1 1,
         alarm_armed := True\<rparr>))"
proof -
  let ?v = "((initial three_lines \<lparr>ws_row = 2, ws_col = 80\<rparr> 5)
        \<lparr>time_to_scroll := 4,
         stdout := wipe @ ''a\<newline>'' @ status_bar \<lparr>ws_row = 2, ws_col = 80\<rparr> (at_nine 0) 1 1,
         alarm_armed := True\<rparr>)"
  have h: "exit_status ?v = None" "\<not> paused ?v" "head ?v \<noteq> []"
    "ws_col (terminal_dimensions ?v) \<noteq> 0"
    "lines_printed ?v = 0" "physical_lines_printed ?v = 0"
    by (simp_all add: three_lines_def at_nine_def initial_def)
  have l: "latched ?v"
    by (simp add: three_lines_def at_nine_def latched_def step_def sigalrm_def scroll_def render_def initial_def Let_def rows_needed_def
          ceil_quotient_def short_file_def current_line_def)
  from pause_then_resume_keeps_the_view [OF h l, of "(at_nine 1)" "(at_nine 1)"
      "[at_nine 2, at_nine 3]"] l
  show ?thesis
    by blast
qed

subsection \<open>A file that fits in one frame\<close>








subsection \<open>Rows of a line\<close>

text \<open>The integer quotient of the model is the ceiling of the real quotient.\<close>

lemma ceil_quotient_is_ceiling:
  assumes "col \<noteq> 0"
  shows "ceil_quotient len col = Some \<lceil>(real len - 1) / real_of_int (uint col)\<rceil>"
proof -
  have "\<lceil>real_of_int (int len - 1) / real_of_int (uint col)\<rceil> = - (- (int len - 1) div uint col)"
    by (rule ceiling_divide_eq_div)
  with assms show ?thesis by (simp add: ceil_quotient_def)
qed

text \<open>A line that is a newline and nothing else takes one row, whatever the window.\<close>

lemma rows_needed_empty_line: "rows_needed td (current_line [CHR 0x0A]) = Inr 1"
  by (simp add: rows_needed_def current_line_def)

text \<open>A line that ends in a newline takes the ceiling of its visible characters over the
  columns.\<close>

lemma rows_needed_terminated_line:
  assumes "ws_col td \<noteq> 0" and "CHR 0x00 \<notin> set s" and "s \<noteq> []"
  shows "rows_needed td (current_line (s @ [CHR 0x0A])) =
         Inr \<lceil>real (visible_character_count (current_line (s @ [CHR 0x0A])))
               / real_of_int (uint (ws_col td))\<rceil>"
proof -
  from assms(2) have c: "takeWhile (\<lambda>c. c \<noteq> CHR 0x00) (s @ [CHR 0x0A]) = s @ [CHR 0x0A]"
    by (auto simp: takeWhile_eq_all_conv)
  have v: "visible_character_count (current_line (s @ [CHR 0x0A])) = length s"
    by (simp add: visible_character_count_def current_line_def c)
  from assms(3) have l: "length_L (current_line (s @ [CHR 0x0A])) \<noteq> 1"
    by (simp add: current_line_def)
  have "real (length_L (current_line (s @ [CHR 0x0A]))) - 1 = real (length s)"
    by (simp add: current_line_def)
  with l ceil_quotient_is_ceiling [OF assms(1), of "length_L (current_line (s @ [CHR 0x0A]))"] v
  show ?thesis by (simp add: rows_needed_def Let_def)
qed

text \<open>
  Claim C3 says that the rows of a line are the ceiling of its visible characters over
  the columns.  The code takes \<open>length - 1\<close> for the visible characters, the comment on
  the field saying that the length includes the newline.  \<open>getline\<close> includes the
  newline only if there is one: the last line of a file may end without.  Such a line
  of 81 characters is read as one line of length 81, all of them visible; on 80 columns
  the code counts 1 row for it where the ceiling of 81 over 80 is 2.
\<close>

theorem unterminated_last_line_rows:
  "read_lines ''123456789012345678901234567890123456789012345678901234567890123456789012345678901'' []
     = [current_line ''123456789012345678901234567890123456789012345678901234567890123456789012345678901'']
   \<and> visible_character_count
       (current_line ''123456789012345678901234567890123456789012345678901234567890123456789012345678901'') = 81
   \<and> rows_needed \<lparr>ws_row = 24, ws_col = 80\<rparr>
       (current_line ''123456789012345678901234567890123456789012345678901234567890123456789012345678901'') = Inr 1
   \<and> \<lceil>real (visible_character_count
              (current_line ''123456789012345678901234567890123456789012345678901234567890123456789012345678901''))
        / real_of_int (uint (ws_col \<lparr>ws_row = 24, ws_col = 80\<rparr>))\<rceil> = 2"
proof -
  have "\<lceil>(81::real) / 80\<rceil> = 2" by (simp add: ceiling_eq_iff)
  then show ?thesis
    by (simp add: visible_character_count_def current_line_def rows_needed_def
          ceil_quotient_def)
qed

text \<open>
  Claim C2 says that the physical rows of the lines of a frame never exceed
  \<open>ws_row - 1\<close>.  The loop keeps its own count within that budget, and its count is
  the rows of a line only where the line ends in a newline: it is short by one row for
  a last line without newline whose length is a multiple of the columns plus one.  A
  file that is one such line of 81 characters, on a terminal of 2 rows and 80 columns:
  the budget is 1 row, the loop counts 1 row for the line and prints it, and the line
  takes 2 rows, the second one being the row of the status bar.
\<close>

theorem unterminated_last_line_overruns_the_frame:
  "read_lines ''123456789012345678901234567890123456789012345678901234567890123456789012345678901'' []
     = [current_line ''123456789012345678901234567890123456789012345678901234567890123456789012345678901'']
   \<and> print_text \<lparr>ws_row = 2, ws_col = 80\<rparr>
       [current_line ''123456789012345678901234567890123456789012345678901234567890123456789012345678901'']
       (0, 0, [])
     = Inr ([], 1, 1, ''123456789012345678901234567890123456789012345678901234567890123456789012345678901'')
   \<and> uint (ws_row \<lparr>ws_row = 2, ws_col = 80\<rparr>) - 1 = 1
   \<and> \<lceil>real (visible_character_count
              (current_line ''123456789012345678901234567890123456789012345678901234567890123456789012345678901''))
        / real_of_int (uint (ws_col \<lparr>ws_row = 2, ws_col = 80\<rparr>))\<rceil> = 2"
proof -
  have "\<lceil>(81::real) / 80\<rceil> = 2" by (simp add: ceiling_eq_iff)
  then show ?thesis
    by (simp add: visible_character_count_def current_line_def rows_needed_def
          ceil_quotient_def)
qed

subsection \<open>The states a run reaches\<close>

text \<open>
  The loop is entered with a pending \<open>SIGALRM\<close> (line 293), so the first signal handled
  is a tick.  From then on, as long as the viewer runs on a file that has a line, the
  counters are zero between iterations, the list is not empty and the flag is latched:
  the conditions under which the properties of a tick and of pause and resume are
  stated hold in every state in which a signal can arrive.
\<close>

lemma render_latched:
  assumes "render now u = Inr u'" and "lines_printed u = 0" and "physical_lines_printed u = 0"
  shows "latched u'"
proof -
  let ?td = "terminal_dimensions u"
  from assms obtain lw lp pp out where
    p: "print_text ?td (head u) (0, 0, stdout u) = Inr (lw, lp, pp, out)"
    by (auto simp: render_def split: sum.splits)
  then obtain out0 where p0: "print_text ?td (head u) (0, 0, []) = Inr (lw, lp, pp, out0)"
    by (subst (asm) print_text_out) (auto simp: map_sum_def split: sum.splits)
  from assms p have "head u' = head u" "terminal_dimensions u' = ?td"
    "start_line_number u' = start_line_number u"
    "display_and_exit u' = (short_file ?td lw pp (start_line_number u) \<or> display_and_exit u)"
    by (auto simp: render_def split: if_splits)
  with p0 show ?thesis by (simp add: latched_def)
qed

lemma scroll_nonempty:
  "scroll u = Inr (True, u1) \<Longrightarrow> head u \<noteq> [] \<Longrightarrow> head u1 \<noteq> []"
  by (auto simp: scroll_def Let_def split: if_splits list.splits)

lemma tick_invariant:
  assumes "step (SIGALRM, now) a = Inr b" and "exit_status a = None" and "exit_status b = None"
    and "lines_printed a = 0" and "physical_lines_printed a = 0" and "head a \<noteq> []"
  shows "lines_printed b = 0 \<and> physical_lines_printed b = 0 \<and> head b \<noteq> [] \<and> latched b"
proof -
  let ?u = "a\<lparr>stdout := stdout a @ wipe, alarm_armed := False\<rparr>"
  from assms(1,2) have s: "sigalrm now a = Inr b" by (simp add: step_def)
  then obtain g a1 where sc: "scroll ?u = Inr (g, a1)"
    by (auto simp: sigalrm_def split: sum.splits)
  have g
  proof (rule ccontr)
    assume "\<not> g"
    with s sc have "b = terminate a1" by (simp add: sigalrm_def)
    with assms(3) show False by (simp add: terminate_def)
  qed
  with s sc have r: "render now a1 = Inr b" and sc': "scroll ?u = Inr (True, a1)"
    by (simp_all add: sigalrm_def)
  from scroll_frame [OF sc'] assms(4,5)
  have z: "lines_printed a1 = 0" "physical_lines_printed a1 = 0" by simp_all
  from scroll_nonempty [OF sc'] assms(6) have "head a1 \<noteq> []" by simp
  with render_keeps [OF r] render_latched [OF r z] show ?thesis by simp
qed

lemma running_state:
  assumes "run ((SIGALRM, now) # ds) (initial ls td secs) = Inr v" and "exit_status v = None"
    and "ls \<noteq> []"
  shows "lines_printed v = 0 \<and> physical_lines_printed v = 0 \<and> head v \<noteq> [] \<and> latched v"
proof -
  let ?P = "\<lambda>a. lines_printed a = 0 \<and> physical_lines_printed a = 0 \<and> head a \<noteq> [] \<and> latched a"
  from assms(1) obtain v1 where
    s: "step (SIGALRM, now) (initial ls td secs) = Inr v1" and r: "run ds v1 = Inr v"
    by (auto split: sum.splits)
  have e1: "exit_status v1 = None"
  proof (rule ccontr)
    assume "exit_status v1 \<noteq> None"
    with r have "v = v1" by (simp add: run_exited)
    with assms(2) \<open>exit_status v1 \<noteq> None\<close> show False by simp
  qed
  from assms(3) have "?P v1"
    by (intro tick_invariant [OF s _ e1]) (simp_all add: initial_def)
  with r assms(2) show ?thesis
  proof (rule run_invariant [where P = ?P])
    fix d a b
    assume P: "?P a" and st: "step d a = Inr b" and eb: "exit_status b = None"
    have ea: "exit_status a = None"
    proof (rule ccontr)
      assume "exit_status a \<noteq> None"
      with st have "b = a" by (simp add: step_exited)
      with eb \<open>exit_status a \<noteq> None\<close> show False by simp
    qed
    show "?P b"
    proof (cases "fst d")
      case SIGALRM
      with st have "step (SIGALRM, snd d) a = Inr b" by (cases d) simp
      from tick_invariant [OF this ea eb] P show ?thesis by simp
    next
      case SIGTSTP
      with st ea P show ?thesis by (auto simp: step_def latched_def split: sum.splits)
    next
      case SIGINT
      with st ea P show ?thesis by (auto simp: step_def latched_def split: sum.splits)
    next
      case SIGQUIT
      with st ea eb show ?thesis by (auto simp: step_def terminate_def)
    qed
  qed
qed

subsection \<open>The command line\<close>































text \<open>Not part of the claim as amended, two slips of the code.  \<open>2^32 + 1\<close> fits a 64-bit
  \<open>long\<close>, becomes 1 when stored in \<open>int seconds\<close>, and passes the range test.  And with
  a byte other than zero behind the copy of the value, \<open>-s 5\<close> is not an integer.\<close>

lemma wrapped_seconds_accepted:
  "process_command_line [] [] [''-s'', ''4294967297'', ''notes.txt''] = Inr (''notes.txt'', 1)"
  by (simp add: process_command_line_def unterminated_copy_def extract_seconds_def strtol_def
        isspace_def digit_value_def Let_def LONG_MAX_def LONG_MIN_def)

lemma value_read_past_its_buffer:
  "process_command_line ''!'' [] [''-s'', ''5'', ''notes.txt''] = Inl Non_Integer"
  by (simp add: process_command_line_def unterminated_copy_def extract_seconds_def strtol_def
        isspace_def digit_value_def Let_def LONG_MAX_def LONG_MIN_def)

end
